theory Spec2Isabelle
  imports Complex_Main "HOL-Library.Sublist"
begin

section \<open>Data model of \<open>bot.py\<close>\<close>

text \<open>
  User, channel, guild and message ids are Python ints. A \<open>datetime\<close> is a naive
  wall-clock reading, modelled as a whole number of microseconds (the resolution of
  Python's \<open>datetime\<close>); the difference of two readings is a \<open>timedelta\<close>, again a
  number of microseconds, possibly negative. Text is ASCII text.
\<close>

type_synonym user_id = int
type_synonym datetime = int
type_synonym timedelta = int

datatype SecurityLevel = LOW | MEDIUM | HIGH | CRITICAL

record SecurityEvent =
  timestamp :: datetime
  user_id :: user_id
  user_name :: string
  event_type :: string
  description :: string
  level :: SecurityLevel
  channel_id :: "int option"
  message_id :: "int option"

text \<open>
  An entry of \<open>user_data["reasons"]\<close>: the dict
  \<open>{"reason": reason, "points": points, "timestamp": now}\<close>.
\<close>

record reason_entry =
  reason :: string
  points :: int
  added_at :: datetime

text \<open>
  A value of \<open>suspicious_users\<close>: the dict with the keys \<open>total_points\<close>,
  \<open>reasons\<close> and \<open>recent_messages\<close> that \<open>add_suspicion\<close> creates.
\<close>

record user_data =
  total_points :: int
  reasons :: "reason_entry list"
  recent_messages :: "datetime list"

text \<open>
  The keys of \<open>config.json\<close> that the modelled methods read with \<open>config.get\<close>.
  For \<open>log_channel_id\<close>, read without a default, \<open>None\<close> is a missing key or JSON
  null: \<open>config.get\<close> returns \<open>None\<close> for both. For \<open>auto_moderation\<close> and
  \<open>suspicious_threshold\<close>, read with a default, \<open>None\<close> is a missing key and nothing
  else; a key that is present holds a JSON boolean and a JSON integer respectively, as in
  the file that \<open>load_config\<close> writes. A present key with the value null or of another
  type is not a configuration of this model.
\<close>

record config =
  log_channel_id :: "int option"
  auto_moderation :: "bool option"
  suspicious_threshold :: "int option"

text \<open>
  A \<open>discord.Embed\<close>: its title and the fields added with \<open>add_field\<close>, in order.
  The titles and field names of the source are Russian text; each is named here by
  a constructor, and a field carries the values its text is formatted from.
\<close>

datatype embed_title =
  SuspiciousMessage | SpamDetected | InviteDetected | HighSuspicion | NewAccount | LowActivity

datatype embed_field =
  AuthorField user_id
  | ChannelField int
  | MessageField string
  | UserField user_id
  | PointsField int
  | ReasonsField "string list"
  | GuildField string
  | OnlineField int int
  | PercentField int

record embed =
  title :: embed_title
  embed_fields :: "embed_field list"

datatype action = Timeout user_id nat | DeleteMessage int

datatype log_line = AlertFailed | ScanFailed

datatype exn = DiscordError | DatabaseError

record message =
  msg_id :: int
  author_id :: user_id
  author_name :: string
  author_bot :: bool
  msg_channel_id :: int
  content :: string
  created_at :: datetime

record database =
  events_table :: "SecurityEvent list"
  messages_table :: "int \<rightharpoonup> message"

text \<open>
  The bot's attributes \<open>config\<close>, \<open>security_events\<close>, \<open>suspicious_users\<close> and
  \<open>db\<close>, and a trace of what it did to the outside: the embeds delivered to the log
  channel, the moderation actions carried out, and the lines written by
  \<open>logger.error\<close>.
\<close>

record bot =
  config :: config
  security_events :: "SecurityEvent list"
  suspicious_users :: "user_id \<rightharpoonup> user_data"
  db :: database
  delivered :: "embed list"
  moderation :: "action list"
  logger :: "log_line list"

text \<open>
  What the outside answers during one call: whether \<open>get_user\<close> and
  \<open>get_channel\<close> find the object in the cache (they return \<open>None\<close> otherwise), and
  whether \<open>channel.send\<close>, \<open>author.timeout\<close>, \<open>message.delete\<close> and the sqlite
  calls raise.
\<close>

record env =
  get_user :: "user_id \<Rightarrow> bool"
  get_channel :: "int \<Rightarrow> bool"
  send_raises :: bool
  timeout_raises :: bool
  delete_raises :: bool
  db_raises :: bool

text \<open>
  A method that can raise returns the exception (or \<open>None\<close> when it returned) together
  with the bot as it is at that moment: what was mutated before a raise stays mutated.
\<close>

type_synonym outcome = "exn option \<times> bot"

definition and_then :: "outcome \<Rightarrow> (bot \<Rightarrow> outcome) \<Rightarrow> outcome" where
  "and_then r f = (case fst r of Some e \<Rightarrow> r | None \<Rightarrow> f (snd r))"

section \<open>Python primitives\<close>

text \<open>\<open>timedelta.seconds\<close>: the seconds field of the normalised (days, seconds,
  microseconds) triple, always within \<open>0..86399\<close>.\<close>

definition td_seconds :: "timedelta \<Rightarrow> int" where
  "td_seconds d = (d div 1000000) mod 86400"

text \<open>\<open>xs[-n:]\<close> for an int \<open>n\<close>: the slice that starts at index \<open>-n\<close>.\<close>

definition slice_from :: "int \<Rightarrow> 'a list \<Rightarrow> 'a list" where
  "slice_from i xs =
     (let n = int (length xs);
          j = (if i < 0 then max 0 (i + n) else min i n)
      in drop (nat j) xs)"

text \<open>\<open>str.upper\<close> and \<open>str.lower\<close> on ASCII text: the 26 letters change case, every
  other character stays.\<close>

definition upper_char :: "char \<Rightarrow> char" where
  "upper_char c =
     (case map_of (zip ''abcdefghijklmnopqrstuvwxyz'' ''ABCDEFGHIJKLMNOPQRSTUVWXYZ'') c of
        None \<Rightarrow> c | Some u \<Rightarrow> u)"

definition lower_char :: "char \<Rightarrow> char" where
  "lower_char c =
     (case map_of (zip ''ABCDEFGHIJKLMNOPQRSTUVWXYZ'' ''abcdefghijklmnopqrstuvwxyz'') c of
        None \<Rightarrow> c | Some l \<Rightarrow> l)"

definition upper :: "string \<Rightarrow> string" where
  "upper s = map upper_char s"

definition lower :: "string \<Rightarrow> string" where
  "lower s = map lower_char s"

section \<open>The bot's methods\<close>

definition suspicious_words :: "string list" where
  "suspicious_words =
     [''hack'', ''cheat'', ''exploit'', ''crack'', ''bypass'',
      ''ddos'', ''bot'', ''script'', ''auto'', ''macro'']"

definition is_suspicious_content :: "string \<Rightarrow> bool" where
  "is_suspicious_content c = list_ex (\<lambda>word. sublist word c) suspicious_words"

definition contains_invite :: "string \<Rightarrow> bool" where
  "contains_invite c = (sublist ''discord.gg/'' c \<or> sublist ''discordapp.com/invite/'' c)"

definition is_spam :: "datetime \<Rightarrow> message \<Rightarrow> bot \<Rightarrow> bool \<times> bot" where
  "is_spam now m b =
     (case suspicious_users b (author_id m) of
        None \<Rightarrow> (False, b)
      | Some data \<Rightarrow>
          (let recent = filter (\<lambda>msg. td_seconds (now - msg) < 10) (recent_messages data)
           in if length recent \<ge> 5 then (True, b)
              else (False,
                    b\<lparr>suspicious_users :=
                        (suspicious_users b)
                          (author_id m \<mapsto> data\<lparr>recent_messages := recent @ [now]\<rparr>)\<rparr>)))"

definition send_security_alert :: "env \<Rightarrow> embed \<Rightarrow> bot \<Rightarrow> bot" where
  "send_security_alert e em b =
     (case log_channel_id (config b) of
        None \<Rightarrow> b
      | Some cid \<Rightarrow>
          if cid = 0 then b
          else if get_channel e cid then
            (if send_raises e then b\<lparr>logger := logger b @ [AlertFailed]\<rparr>
             else b\<lparr>delivered := delivered b @ [em]\<rparr>)
          else b)"

definition handle_high_suspicion :: "env \<Rightarrow> user_id \<Rightarrow> user_data \<Rightarrow> bot \<Rightarrow> bot" where
  "handle_high_suspicion e uid data b =
     send_security_alert e
       \<lparr>title = HighSuspicion,
        embed_fields =
          (if get_user e uid then
             [UserField uid, PointsField (total_points data),
              ReasonsField (map reason (slice_from (- 5) (reasons data)))]
           else [])\<rparr> b"

text \<open>
  \<open>config.get("suspicious_threshold", 3)\<close>: the default 3 stands for a missing key.
\<close>

definition threshold :: "config \<Rightarrow> int" where
  "threshold c = (case suspicious_threshold c of None \<Rightarrow> 3 | Some t \<Rightarrow> t)"

definition add_suspicion :: "env \<Rightarrow> datetime \<Rightarrow> user_id \<Rightarrow> string \<Rightarrow> int \<Rightarrow> bot \<Rightarrow> bot" where
  "add_suspicion e now uid rsn pts b =
     (let data0 = (case suspicious_users b uid of
                     None \<Rightarrow> \<lparr>total_points = 0, reasons = [], recent_messages = []\<rparr>
                   | Some d \<Rightarrow> d);
          data = data0\<lparr>total_points := total_points data0 + pts,
                       reasons := reasons data0 @ [\<lparr>reason = rsn, points = pts, added_at = now\<rparr>]\<rparr>;
          b1 = b\<lparr>suspicious_users := (suspicious_users b)(uid \<mapsto> data)\<rparr>
      in if total_points data \<ge> threshold (config b1) then handle_high_suspicion e uid data b1
         else b1)"

datatype reply = Cleared | NoSuspicions

definition clear_suspicion :: "user_id \<Rightarrow> bot \<Rightarrow> reply \<times> bot" where
  "clear_suspicion uid b =
     (if uid \<in> dom (suspicious_users b)
      then (Cleared, b\<lparr>suspicious_users := (suspicious_users b)(uid := None)\<rparr>)
      else (NoSuspicions, b))"

definition handle_suspicious_message :: "env \<Rightarrow> message \<Rightarrow> bot \<Rightarrow> bot" where
  "handle_suspicious_message e m b =
     send_security_alert e
       \<lparr>title = SuspiciousMessage,
        embed_fields =
          [AuthorField (author_id m), ChannelField (msg_channel_id m),
           MessageField (if length (content m) > 100 then take 100 (content m) @ ''...''
                         else content m)]\<rparr> b"

text \<open>
  \<open>config.get("auto_moderation", True)\<close>: the default \<open>True\<close> stands for a missing key.
\<close>

definition auto_moderation_on :: "config \<Rightarrow> bool" where
  "auto_moderation_on c = (case auto_moderation c of None \<Rightarrow> True | Some v \<Rightarrow> v)"

definition handle_spam :: "env \<Rightarrow> message \<Rightarrow> bot \<Rightarrow> outcome" where
  "handle_spam e m b =
     (let b1 = send_security_alert e
                 \<lparr>title = SpamDetected,
                  embed_fields = [AuthorField (author_id m), ChannelField (msg_channel_id m)]\<rparr> b
      in if auto_moderation_on (config b1) then
           (if timeout_raises e then (Some DiscordError, b1)
            else (None, b1\<lparr>moderation := moderation b1 @ [Timeout (author_id m) 5]\<rparr>))
         else (None, b1))"

definition handle_invite :: "env \<Rightarrow> message \<Rightarrow> bot \<Rightarrow> outcome" where
  "handle_invite e m b =
     (let b1 = send_security_alert e
                 \<lparr>title = InviteDetected,
                  embed_fields = [AuthorField (author_id m), ChannelField (msg_channel_id m)]\<rparr> b
      in if auto_moderation_on (config b1) then
           (if delete_raises e then (Some DiscordError, b1)
            else
              (let b2 = b1\<lparr>moderation := moderation b1 @ [DeleteMessage (msg_id m)]\<rparr>
               in if timeout_raises e then (Some DiscordError, b2)
                  else (None, b2\<lparr>moderation := moderation b2 @ [Timeout (author_id m) 10]\<rparr>)))
         else (None, b1))"

definition log_message_event :: "env \<Rightarrow> message \<Rightarrow> bot \<Rightarrow> outcome" where
  "log_message_event e m b =
     (if db_raises e then (Some DatabaseError, b)
      else (None, b\<lparr>db := (db b)\<lparr>messages_table := (messages_table (db b))(msg_id m \<mapsto> m)\<rparr>\<rparr>))"

definition process_message :: "env \<Rightarrow> datetime \<Rightarrow> message \<Rightarrow> bot \<Rightarrow> outcome" where
  "process_message e now m b =
     (let c = lower (content m);
          uid = author_id m;
          b1 = (if is_suspicious_content c
                then add_suspicion e now uid ''suspicious_content'' 1
                       (handle_suspicious_message e m b)
                else b);
          (spam, b2) = is_spam now m b1
      in and_then
           (if spam
            then and_then (handle_spam e m b2)
                   (\<lambda>b'. (None, add_suspicion e now uid ''spam'' 2 b'))
            else (None, b2))
           (\<lambda>b3. and_then
              (if contains_invite c
               then and_then (handle_invite e m b3)
                      (\<lambda>b'. (None, add_suspicion e now uid ''invite_link'' 3 b'))
               else (None, b3))
              (\<lambda>b4. log_message_event e m b4)))"

text \<open>
  \<open>log_security_event\<close>: the append comes first, then the sqlite insert, then the
  cut to the last 1000; a raise of the insert leaves the cut undone.
\<close>

definition log_security_event :: "env \<Rightarrow> SecurityEvent \<Rightarrow> bot \<Rightarrow> outcome" where
  "log_security_event e ev b =
     (let b1 = b\<lparr>security_events := security_events b @ [ev]\<rparr>
      in if db_raises e then (Some DatabaseError, b1)
         else
           (let b2 = b1\<lparr>db := (db b1)\<lparr>events_table := events_table (db b1) @ [ev]\<rparr>\<rparr>
            in (None,
                if length (security_events b2) > 1000
                then b2\<lparr>security_events := slice_from (- 1000) (security_events b2)\<rparr>
                else b2)))"

section \<open>The commands\<close>

text \<open>
  What \<open>show_logs\<close> sends: the text that no logs were found, or an embed with one
  field per event, in the order of the list.
\<close>

datatype logs_reply = NoLogsFound | LogsEmbed "SecurityEvent list"

definition show_logs :: "string \<Rightarrow> int \<Rightarrow> bot \<Rightarrow> logs_reply" where
  "show_logs etype limit b =
     (let limit' = (if limit > 25 then 25 else limit);
          events = (if etype \<noteq> ''all''
                    then filter (\<lambda>ev. event_type ev = upper etype) (security_events b)
                    else security_events b)
      in if events = [] then NoLogsFound
         else LogsEmbed (slice_from (- limit') events))"

section \<open>The periodic scan\<close>

text \<open>
  What the scan reads of a \<open>discord.Guild\<close>: its name, its \<open>member_count\<close> (an int)
  and the status of each cached member.
\<close>

datatype Status = Online | Offline | Idle | Dnd | Invisible

record guild =
  guild_name :: string
  member_count :: int
  members :: "Status list"

text \<open>
  The format \<open>.1f\<close> of a number: the digits shown are those of the nearest whole
  number of tenths, a tie going to the even one.
\<close>

definition format_1f :: "real \<Rightarrow> int" where
  "format_1f x =
     (let f = \<lfloor>x * 10\<rfloor>; r = x * 10 - of_int f
      in if r < 1 / 2 then f else if r > 1 / 2 then f + 1 else if even f then f else f + 1)"

text \<open>
  The percentage is computed in Python floats: \<open>fl\<close> is the rounding of a real result
  to the float that represents it, so the division yields \<open>fl (online / total)\<close> and
  the product \<open>fl (\<dots> * 100)\<close>.
\<close>

definition online_percentage :: "(real \<Rightarrow> real) \<Rightarrow> int \<Rightarrow> int \<Rightarrow> real" where
  "online_percentage fl online_members total_members =
     fl (fl (of_int online_members / of_int total_members) * 100)"

definition scan_guild_security :: "(real \<Rightarrow> real) \<Rightarrow> env \<Rightarrow> guild \<Rightarrow> bot \<Rightarrow> bot" where
  "scan_guild_security fl e g b =
     (let total_members = member_count g;
          online_members = int (length (filter (\<lambda>s. s \<noteq> Offline) (members g)))
      in if total_members > 0 then
           (let pct = online_percentage fl online_members total_members
            in if pct < 10 \<and> total_members > 100 then
                 send_security_alert e
                   \<lparr>title = LowActivity,
                    embed_fields =
                      [GuildField (guild_name g), OnlineField online_members total_members,
                       PercentField (format_1f pct)]\<rparr> b
               else b)
         else b)"

section \<open>Start state, calls and invariants\<close>

text \<open>
  The configuration that \<open>load_config\<close> writes when \<open>config.json\<close> is missing, and the
  bot as \<open>__init__\<close> leaves it: no events, no suspicious users.
\<close>

definition default_config :: config where
  "default_config = \<lparr>log_channel_id = None, auto_moderation = Some True, suspicious_threshold = Some 3\<rparr>"

definition initial_bot :: "config \<Rightarrow> bot" where
  "initial_bot c =
     \<lparr>config = c, security_events = [], suspicious_users = Map.empty,
      db = \<lparr>events_table = [], messages_table = Map.empty\<rparr>,
      delivered = [], moderation = [], logger = []\<rparr>"

text \<open>
  The methods that touch \<open>suspicious_users\<close>, as calls; \<open>run\<close> makes the calls of a
  list one after the other, each with the clock reading and the outside of its moment.
  The \<open>warn\<close> command is the call \<open>AddSuspicion uid ''manual_warning'' 2\<close>.
\<close>

datatype call =
  AddSuspicion user_id string int
  | IsSpam message
  | ClearSuspicion user_id
  | ProcessMessage message

fun step :: "env \<times> datetime \<times> call \<Rightarrow> bot \<Rightarrow> bot" where
  "step (e, now, AddSuspicion uid rsn pts) b = add_suspicion e now uid rsn pts b"
| "step (e, now, IsSpam m) b = snd (is_spam now m b)"
| "step (e, now, ClearSuspicion uid) b = snd (clear_suspicion uid b)"
| "step (e, now, ProcessMessage m) b = snd (process_message e now m b)"

definition run :: "(env \<times> datetime \<times> call) list \<Rightarrow> bot \<Rightarrow> bot" where
  "run cs b = fold step cs b"

text \<open>
  The record that \<open>add_suspicion\<close> starts from for an unknown user, and what one call
  makes of a record.
\<close>

definition fresh :: user_data where
  "fresh = \<lparr>total_points = 0, reasons = [], recent_messages = []\<rparr>"

definition added :: "datetime \<Rightarrow> string \<Rightarrow> int \<Rightarrow> user_data \<Rightarrow> user_data" where
  "added now rsn pts d =
     d\<lparr>total_points := total_points d + pts,
       reasons := reasons d @ [\<lparr>reason = rsn, points = pts, added_at = now\<rparr>]\<rparr>"





text \<open>
  A call after which \<open>add_suspicion\<close> has run for the user: a direct call, or a message
  of the user whose text matches a keyword or an invite link.
\<close>

definition adds_points :: "user_id \<Rightarrow> call \<Rightarrow> bool" where
  "adds_points uid c =
     (case c of
        AddSuspicion u rsn pts \<Rightarrow> u = uid
      | ProcessMessage m \<Rightarrow>
          author_id m = uid \<and>
          (is_suspicious_content (lower (content m)) \<or> contains_invite (lower (content m)))
      | _ \<Rightarrow> False)"

text \<open>
  The events that \<open>on_member_join\<close> and \<open>on_member_remove\<close> hand to
  \<open>log_security_event\<close>, for a member with a name and a discriminator.
\<close>

definition member_join_event :: "datetime \<Rightarrow> user_id \<Rightarrow> string \<Rightarrow> string \<Rightarrow> SecurityEvent" where
  "member_join_event now uid name discriminator =
     \<lparr>timestamp = now, user_id = uid, user_name = name, event_type = ''MEMBER_JOIN'',
      description = ''New member joined: '' @ name @ ''#'' @ discriminator,
      level = LOW, channel_id = None, message_id = None\<rparr>"

definition member_leave_event :: "datetime \<Rightarrow> user_id \<Rightarrow> string \<Rightarrow> string \<Rightarrow> SecurityEvent" where
  "member_leave_event now uid name discriminator =
     \<lparr>timestamp = now, user_id = uid, user_name = name, event_type = ''MEMBER_LEAVE'',
      description = ''Member left: '' @ name @ ''#'' @ discriminator,
      level = LOW, channel_id = None, message_id = None\<rparr>"

text \<open>
  The events of a list recorded one after the other.
\<close>

definition record_all :: "env \<Rightarrow> SecurityEvent list \<Rightarrow> bot \<Rightarrow> bot" where
  "record_all e evs b = fold (\<lambda>ev b'. snd (log_security_event e ev b')) evs b"

text \<open>
  What the scan needs of the rounding \<open>fl\<close> of Python's floats (binary64, round to
  nearest): it is monotone, exact on 0 and 10, takes 1/10 to a float that is not below
  1/10 (the nearest float is 3602879701896397 / 2^55), and its relative error on
  numbers of normal size is at most 2^-53.
\<close>

definition float_rounding :: "(real \<Rightarrow> real) \<Rightarrow> bool" where
  "float_rounding fl =
     (mono fl \<and> fl 0 = 0 \<and> fl 10 = 10 \<and> 1 / 10 \<le> fl (1 / 10) \<and>
      (\<forall>x. 1 / 2 ^ 60 \<le> x \<and> x \<le> 2 ^ 60 \<longrightarrow> \<bar>fl x - x\<bar> \<le> x / 2 ^ 53))"

section \<open>Concrete inputs\<close>

text \<open>
  An outside in which every lookup succeeds and nothing raises; a message of a user; a bot
  in which a user has a record; the record of a user warned once, with a given window.
\<close>

definition healthy_env :: env where
  "healthy_env =
     \<lparr>get_user = (\<lambda>uid. True), get_channel = (\<lambda>cid. True), send_raises = False,
      timeout_raises = False, delete_raises = False, db_raises = False\<rparr>"

definition message_of :: "user_id \<Rightarrow> string \<Rightarrow> message" where
  "message_of uid txt =
     \<lparr>msg_id = 1, author_id = uid, author_name = ''member'', author_bot = False,
      msg_channel_id = 1, content = txt, created_at = 0\<rparr>"

definition with_record :: "user_id \<Rightarrow> user_data \<Rightarrow> bot \<Rightarrow> bot" where
  "with_record uid d b = b\<lparr>suspicious_users := (suspicious_users b)(uid \<mapsto> d)\<rparr>"

definition warned :: "datetime list \<Rightarrow> user_data" where
  "warned w =
     \<lparr>total_points = 2,
      reasons = [\<lparr>reason = ''manual_warning'', points = 2, added_at = 0\<rparr>],
      recent_messages = w\<rparr>"

text \<open>
  The window that \<open>is_spam\<close> reads for a user, \<open>user_data.get("recent_messages", [])\<close>,
  taken as empty for a user with no record; and the spam check run once per clock reading
  of a list, for the messages of one user.
\<close>

definition window :: "user_id \<Rightarrow> bot \<Rightarrow> datetime list" where
  "window uid b = (case suspicious_users b uid of None \<Rightarrow> [] | Some d \<Rightarrow> recent_messages d)"

fun spam_checks :: "datetime list \<Rightarrow> message \<Rightarrow> bot \<Rightarrow> bool list \<times> bot" where
  "spam_checks [] m b = ([], b)"
| "spam_checks (now # ts) m b =
     (let (r, b') = is_spam now m b; (rs, b'') = spam_checks ts m b' in (r # rs, b''))"

text \<open>
  A configuration with a log channel, and an outside whose user cache is empty.
\<close>

definition channel_config :: config where
  "channel_config = default_config\<lparr>log_channel_id := Some 100\<rparr>"

definition uncached_env :: env where
  "uncached_env = healthy_env\<lparr>get_user := (\<lambda>uid. False)\<rparr>"

text \<open>
  A guild with a given member count, of whose members a given number is online and the
  rest offline.
\<close>

definition guild_of :: "string \<Rightarrow> nat \<Rightarrow> nat \<Rightarrow> guild" where
  "guild_of name n_total n_online =
     \<lparr>guild_name = name, member_count = int n_total,
      members = replicate n_online Online @ replicate (n_total - n_online) Offline\<rparr>"

section \<open>Facts about the primitives and the frame of each method\<close>

text \<open>
  For a difference of at least zero and less than one day, \<open>timedelta.seconds\<close> is the
  number of whole seconds; a slice \<open>xs[-n:]\<close> with positive \<open>n\<close> is the last \<open>n\<close> elements.
\<close>

lemma td_seconds_lt_10:
  "0 \<le> d \<Longrightarrow> d < 86400000000 \<Longrightarrow> (td_seconds d < 10) = (d < 10000000)"
proof -
  assume d: "0 \<le> d" "d < 86400000000"
  define q where "q = d div 1000000"
  have e: "d = 1000000 * q + d mod 1000000"
    by (simp add: q_def)
  have r: "0 \<le> d mod 1000000" "d mod 1000000 < 1000000"
    by simp_all
  have q: "0 \<le> q" "q < 86400" "(q < 10) = (d < 10000000)"
    using d e r by linarith+
  then have "q mod 86400 = q"
    by simp
  with q show ?thesis
    by (simp add: td_seconds_def q_def)
qed

lemma slice_from_last:
  "0 < n \<Longrightarrow> slice_from (- int n) xs = drop (length xs - n) xs"
  by (auto simp: slice_from_def Let_def max_def nat_diff_distrib' intro: arg_cong [where f = "\<lambda>k. drop k xs"])

text \<open>
  No method but \<open>add_suspicion\<close>, \<open>is_spam\<close> and \<open>clear_suspicion\<close> writes
  \<open>suspicious_users\<close>; sending an alert leaves the configuration as it is.
\<close>

lemma users_send_security_alert [simp]:
  "suspicious_users (send_security_alert e em b) = suspicious_users b"
  by (simp add: send_security_alert_def split: option.splits)

lemma config_send_security_alert [simp]:
  "config (send_security_alert e em b) = config b"
  by (simp add: send_security_alert_def split: option.splits)

lemma delivered_send_security_alert:
  "delivered (send_security_alert e em b) =
     (case log_channel_id (config b) of
        None \<Rightarrow> delivered b
      | Some cid \<Rightarrow>
          if cid \<noteq> 0 \<and> get_channel e cid \<and> \<not> send_raises e then delivered b @ [em]
          else delivered b)"
  by (simp add: send_security_alert_def split: option.splits)

lemma send_security_alert_no_channel:
  "log_channel_id (config b) = None \<Longrightarrow> send_security_alert e em b = b"
  by (simp add: send_security_alert_def)

lemma users_handle_high_suspicion [simp]:
  "suspicious_users (handle_high_suspicion e uid d b) = suspicious_users b"
  by (simp add: handle_high_suspicion_def)

lemma users_add_suspicion:
  "suspicious_users (add_suspicion e now uid rsn pts b) =
     (suspicious_users b)
       (uid \<mapsto> added now rsn pts (case suspicious_users b uid of None \<Rightarrow> fresh | Some d \<Rightarrow> d))"
  by (simp add: add_suspicion_def Let_def added_def fresh_def split: option.splits)

lemma users_is_spam:
  "suspicious_users (snd (is_spam now m b)) uid =
     (if uid = author_id m then
        (case suspicious_users b uid of
           None \<Rightarrow> None
         | Some d \<Rightarrow>
             Some (if fst (is_spam now m b) then d
                   else d\<lparr>recent_messages :=
                            filter (\<lambda>msg. td_seconds (now - msg) < 10) (recent_messages d) @ [now]\<rparr>))
      else suspicious_users b uid)"
  by (simp add: is_spam_def Let_def split: option.splits)

lemma users_handle_suspicious_message [simp]:
  "suspicious_users (handle_suspicious_message e m b) = suspicious_users b"
  by (simp add: handle_suspicious_message_def)

lemma users_handle_spam [simp]:
  "suspicious_users (snd (handle_spam e m b)) = suspicious_users b"
  by (simp add: handle_spam_def Let_def)

lemma users_handle_invite [simp]:
  "suspicious_users (snd (handle_invite e m b)) = suspicious_users b"
  by (simp add: handle_invite_def Let_def)

lemma users_log_message_event [simp]:
  "suspicious_users (snd (log_message_event e m b)) = suspicious_users b"
  by (simp add: log_message_event_def)

lemma handle_spam_no_channel:
  "log_channel_id (config b) = None \<Longrightarrow> auto_moderation_on (config b) \<Longrightarrow>
   handle_spam e m b =
     (if timeout_raises e then (Some DiscordError, b)
      else (None, b\<lparr>moderation := moderation b @ [Timeout (author_id m) 5]\<rparr>))"
  by (simp add: handle_spam_def send_security_alert_no_channel)

lemma handle_invite_no_channel:
  "log_channel_id (config b) = None \<Longrightarrow> auto_moderation_on (config b) \<Longrightarrow>
   handle_invite e m b =
     (if delete_raises e then (Some DiscordError, b)
      else if timeout_raises e
        then (Some DiscordError, b\<lparr>moderation := moderation b @ [DeleteMessage (msg_id m)]\<rparr>)
        else (None, b\<lparr>moderation := moderation b @ [DeleteMessage (msg_id m), Timeout (author_id m) 10]\<rparr>))"
  by (simp add: handle_invite_def send_security_alert_no_channel Let_def)

lemma and_then_preserves:
  assumes "P (snd r)" and "\<And>b. P b \<Longrightarrow> P (snd (f b))"
  shows "P (snd (and_then r f))"
  using assms by (cases r) (simp add: and_then_def split: option.splits)

lemma run_snoc: "run (cs @ [c]) b = step c (run cs b)"
  by (simp add: run_def)

section \<open>The rate window\<close>

lemma is_spam_unknown:
  "suspicious_users b (author_id m) = None \<Longrightarrow> is_spam now m b = (False, b)"
  by (simp add: is_spam_def)

lemma is_spam_known:
  assumes "suspicious_users b (author_id m) = Some data"
    and "\<forall>t \<in> set (recent_messages data). 0 \<le> now - t \<and> now - t < 86400000000"
  shows "is_spam now m b =
    (let kept = filter (\<lambda>t. now - t < 10000000) (recent_messages data)
     in if length kept \<ge> 5 then (True, b)
        else (False,
              b\<lparr>suspicious_users :=
                  (suspicious_users b)(author_id m \<mapsto> data\<lparr>recent_messages := kept @ [now]\<rparr>)\<rparr>))"
proof -
  have "filter (\<lambda>msg. td_seconds (now - msg) < 10) (recent_messages data)
      = filter (\<lambda>t. now - t < 10000000) (recent_messages data)"
    using assms(2) by (intro filter_cong) (auto simp: td_seconds_lt_10)
  then show ?thesis
    using assms(1) by (simp add: is_spam_def Let_def)
qed

lemma is_spam_window:
  assumes "\<forall>t \<in> set w. 0 \<le> now - t \<and> now - t < 86400000000"
  shows "is_spam now m (with_record (author_id m) (data\<lparr>recent_messages := w\<rparr>) b) =
    (let kept = filter (\<lambda>t. now - t < 10000000) w
     in if length kept \<ge> 5
        then (True, with_record (author_id m) (data\<lparr>recent_messages := w\<rparr>) b)
        else (False, with_record (author_id m) (data\<lparr>recent_messages := kept @ [now]\<rparr>) b))"
  using is_spam_known [of "with_record (author_id m) (data\<lparr>recent_messages := w\<rparr>) b" m
      "data\<lparr>recent_messages := w\<rparr>" now] assms
  by (simp add: with_record_def Let_def)

lemma with_record_same:
  "suspicious_users b uid = Some data \<Longrightarrow> recent_messages data = w \<Longrightarrow>
   with_record uid (data\<lparr>recent_messages := w\<rparr>) b = b"
  by (auto simp: with_record_def fun_upd_idem)

lemma window_with_record [simp]: "window uid (with_record uid d b) = recent_messages d"
  by (simp add: window_def with_record_def)

lemma spam_checks_unknown:
  "suspicious_users b (author_id m) = None \<Longrightarrow>
   spam_checks ts m b = (replicate (length ts) False, b)"
  by (induction ts) (simp_all add: is_spam_unknown)

text \<open>
  Claim C1, as amended. The claim says that the check appends \<open>now\<close> for every user,
  creates a window for an unknown user and answers by the size of the window that results.
  The code does this instead: for a user with no record \<open>is_spam\<close> returns \<open>False\<close>
  and stores nothing. For a user with a record whose stored readings are not in the future
  and less than a day old, it keeps the readings less than 10 seconds old; when at least 5
  are kept it returns \<open>True\<close> and leaves the bot as it was, otherwise it stores the
  kept readings followed by \<open>now\<close> and returns \<open>False\<close>. It is a total function: it
  never raises.
\<close>

theorem is_spam_behaviour:
  "(suspicious_users b (author_id m) = None \<longrightarrow> is_spam now m b = (False, b))
 \<and> (\<forall>data. suspicious_users b (author_id m) = Some data \<and>
       (\<forall>t \<in> set (recent_messages data). 0 \<le> now - t \<and> now - t < 86400000000) \<longrightarrow>
       (let kept = filter (\<lambda>t. now - t < 10000000) (recent_messages data) in
        is_spam now m b =
          (if length kept \<ge> 5 then (True, b)
           else (False, b\<lparr>suspicious_users := (suspicious_users b)(author_id m \<mapsto> data\<lparr>recent_messages := kept @ [now]\<rparr>)\<rparr>))))"
  using is_spam_unknown [of b m now] is_spam_known [of b m _ now]
  by (simp add: Let_def)

text \<open>
  The theorem at concrete inputs: an unknown user; a user with three stored readings of
  which one is 11 seconds old; a user with five stored readings of the last 5 seconds.
\<close>

theorem is_spam_behaviour_witness:
  "is_spam 0 (message_of 7 ''hi'') (initial_bot default_config)
     = (False, initial_bot default_config)
 \<and> is_spam 12000000 (message_of 7 ''hi'')
      (with_record 7 (warned [1000000, 5000000, 6000000]) (initial_bot default_config))
     = (False, with_record 7 (warned [5000000, 6000000, 12000000]) (initial_bot default_config))
 \<and> is_spam 6000000 (message_of 7 ''hi'')
      (with_record 7 (warned [1000000, 2000000, 3000000, 4000000, 5000000])
         (initial_bot default_config))
     = (True, with_record 7 (warned [1000000, 2000000, 3000000, 4000000, 5000000])
         (initial_bot default_config))"
  using is_spam_behaviour [of "initial_bot default_config" "message_of 7 ''hi''" 0]
    is_spam_behaviour
      [of "with_record 7 (warned [1000000, 5000000, 6000000]) (initial_bot default_config)"
          "message_of 7 ''hi''" 12000000]
    is_spam_behaviour
      [of "with_record 7 (warned [1000000, 2000000, 3000000, 4000000, 5000000])
             (initial_bot default_config)"
          "message_of 7 ''hi''" 6000000]
  by (simp add: initial_bot_def with_record_def message_of_def warned_def Let_def)

text \<open>
  Claim C1 as stated fails: after the check for a user with no record there is still no
  record, hence no window; with four readings stored the check of a fifth message returns
  \<open>False\<close> although the window then holds five; and when it returns \<open>True\<close> the
  reading is not stored.
\<close>

theorem is_spam_counterexample:
  "suspicious_users (snd (is_spam 0 (message_of 7 ''hi'') (initial_bot default_config))) 7 = None
 \<and> is_spam 4000000 (message_of 7 ''hi'')
      (with_record 7 (warned [0, 1000000, 2000000, 3000000]) (initial_bot default_config))
     = (False,
        with_record 7 (warned [0, 1000000, 2000000, 3000000, 4000000])
          (initial_bot default_config))
 \<and> is_spam 5000000 (message_of 7 ''hi'')
      (with_record 7 (warned [0, 1000000, 2000000, 3000000, 4000000])
         (initial_bot default_config))
     = (True,
        with_record 7 (warned [0, 1000000, 2000000, 3000000, 4000000])
          (initial_bot default_config))"
  by (simp add: is_spam_def td_seconds_def initial_bot_def with_record_def message_of_def
        warned_def)

text \<open>
  Claim C2, as amended. For a user with a record and an empty window, six checks in
  order within less than 10 seconds: the first five return \<open>False\<close>, the sixth
  \<open>True\<close>. Four checks within 10 seconds and a fifth 11 seconds after the fourth: all
  return \<open>False\<close> and the window then holds the fifth reading alone. For a user with no
  record every check returns \<open>False\<close> and nothing is stored.
\<close>

theorem sixth_call_in_burst_is_spam:
  "(suspicious_users b (author_id m) = Some data \<and> recent_messages data = [] \<and>
    t1 \<le> t2 \<and> t2 \<le> t3 \<and> t3 \<le> t4 \<and> t4 \<le> t5 \<and> t5 \<le> t6 \<and> t6 - t1 < 10000000 \<longrightarrow>
      fst (spam_checks [t1, t2, t3, t4, t5, t6] m b) = [False, False, False, False, False, True])
 \<and> (suspicious_users b (author_id m) = Some data \<and> recent_messages data = [] \<and>
    t1 \<le> t2 \<and> t2 \<le> t3 \<and> t3 \<le> t4 \<and> t4 - t1 \<le> 10000000 \<longrightarrow>
      fst (spam_checks [t1, t2, t3, t4, t4 + 11000000] m b) = [False, False, False, False, False] \<and>
      window (author_id m) (snd (spam_checks [t1, t2, t3, t4, t4 + 11000000] m b)) = [t4 + 11000000])
 \<and> (suspicious_users b (author_id m) = None \<longrightarrow>
      spam_checks ts m b = (replicate (length ts) False, b))"
proof (intro conjI impI)
  assume a: "suspicious_users b (author_id m) = Some data \<and> recent_messages data = [] \<and>
    t1 \<le> t2 \<and> t2 \<le> t3 \<and> t3 \<le> t4 \<and> t4 \<le> t5 \<and> t5 \<le> t6 \<and> t6 - t1 < 10000000"
  then have b: "b = with_record (author_id m) (data\<lparr>recent_messages := []\<rparr>) b"
    by (simp add: with_record_same)
  show "fst (spam_checks [t1, t2, t3, t4, t5, t6] m b) = [False, False, False, False, False, True]"
    apply (subst b)
    using a by (simp add: is_spam_window Let_def)
next
  assume a: "suspicious_users b (author_id m) = Some data \<and> recent_messages data = [] \<and>
    t1 \<le> t2 \<and> t2 \<le> t3 \<and> t3 \<le> t4 \<and> t4 - t1 \<le> 10000000"
  then have b: "b = with_record (author_id m) (data\<lparr>recent_messages := []\<rparr>) b"
    by (simp add: with_record_same)
  show "fst (spam_checks [t1, t2, t3, t4, t4 + 11000000] m b) = [False, False, False, False, False]"
    apply (subst b)
    using a by (simp add: is_spam_window Let_def)
  show "window (author_id m) (snd (spam_checks [t1, t2, t3, t4, t4 + 11000000] m b)) = [t4 + 11000000]"
    apply (subst b)
    using a by (simp add: is_spam_window Let_def)
next
  assume "suspicious_users b (author_id m) = None"
  then show "spam_checks ts m b = (replicate (length ts) False, b)"
    by (rule spam_checks_unknown)
qed

text \<open>
  The theorem at readings one second apart, for a user warned before and for a user with
  no record.
\<close>

theorem sixth_call_in_burst_is_spam_witness:
  "fst (spam_checks [0, 1000000, 2000000, 3000000, 4000000, 5000000] (message_of 7 ''hi'')
         (with_record 7 (warned []) (initial_bot default_config)))
     = [False, False, False, False, False, True]
 \<and> fst (spam_checks [0, 1000000, 2000000, 3000000, 14000000] (message_of 7 ''hi'')
         (with_record 7 (warned []) (initial_bot default_config)))
     = [False, False, False, False, False]
 \<and> window 7 (snd (spam_checks [0, 1000000, 2000000, 3000000, 14000000] (message_of 7 ''hi'')
         (with_record 7 (warned []) (initial_bot default_config)))) = [14000000]
 \<and> spam_checks [0, 1000000, 2000000, 3000000, 4000000, 5000000] (message_of 7 ''hi'')
         (initial_bot default_config)
     = ([False, False, False, False, False, False], initial_bot default_config)"
  using sixth_call_in_burst_is_spam
      [where b = "with_record 7 (warned []) (initial_bot default_config)"
         and m = "message_of 7 ''hi''" and data = "warned []" and ?t1.0 = 0
         and ?t2.0 = 1000000 and ?t3.0 = 2000000 and ?t4.0 = 3000000 and ?t5.0 = 4000000
         and ?t6.0 = 5000000 and ts = "[]"]
    sixth_call_in_burst_is_spam
      [where b = "initial_bot default_config" and m = "message_of 7 ''hi''"
         and data = "warned []" and ?t1.0 = 0
         and ?t2.0 = 0 and ?t3.0 = 0 and ?t4.0 = 0 and ?t5.0 = 0 and ?t6.0 = 0
         and ts = "[0, 1000000, 2000000, 3000000, 4000000, 5000000]"]
  by (simp add: with_record_def message_of_def warned_def initial_bot_def)

text \<open>
  Claim C2 as stated fails: the fifth of five checks within 4 seconds returns \<open>False\<close>,
  and for a user with no record the window after the fifth check holds no entry.
\<close>

theorem fifth_call_in_burst_counterexample:
  "fst (spam_checks [0, 1000000, 2000000, 3000000, 4000000] (message_of 7 ''hi'')
         (with_record 7 (warned []) (initial_bot default_config)))
     = [False, False, False, False, False]
 \<and> window 7 (snd (spam_checks [0, 1000000, 2000000, 3000000, 14000000] (message_of 7 ''hi'')
         (initial_bot default_config))) = []"
  by (simp add: is_spam_def td_seconds_def with_record_def message_of_def warned_def
        initial_bot_def window_def)

section \<open>The ledger\<close>















text \<open>
  Claim C4, as amended. Every call of \<open>add_suspicion\<close> whose new total reaches the
  threshold (the integer under the key \<open>suspicious_threshold\<close>, or 3 when the
  configuration has no such key) hands the high-suspicion embed to
  \<open>send_security_alert\<close>, whatever the total was before. The embed carries the user, the
  new total and the last 5 reasons when \<open>get_user\<close> finds the user, and no field
  otherwise. It is delivered when a log channel is configured and found and the send does
  not raise; below the threshold nothing is delivered.
\<close>

theorem high_suspicion_alert_on_every_call:
  "(let data = added now rsn pts (case suspicious_users b uid of None \<Rightarrow> fresh | Some d \<Rightarrow> d);
        b1 = b\<lparr>suspicious_users := (suspicious_users b)(uid \<mapsto> data)\<rparr>;
        alert = \<lparr>title = HighSuspicion,
                 embed_fields =
                   (if get_user e uid
                    then [UserField uid, PointsField (total_points data),
                          ReasonsField (map reason (drop (length (reasons data) - 5) (reasons data)))]
                    else [])\<rparr>
    in add_suspicion e now uid rsn pts b =
         (if total_points data \<ge> threshold (config b) then send_security_alert e alert b1 else b1)
     \<and> (\<forall>cid. total_points data \<ge> threshold (config b) \<and> log_channel_id (config b) = Some cid \<and>
              cid \<noteq> 0 \<and> get_channel e cid \<and> \<not> send_raises e \<longrightarrow>
            delivered (add_suspicion e now uid rsn pts b) = delivered b @ [alert])
     \<and> (total_points data < threshold (config b) \<longrightarrow>
            delivered (add_suspicion e now uid rsn pts b) = delivered b))"
proof -
  have "slice_from (- 5) xs = drop (length xs - 5) xs" for xs :: "reason_entry list"
    using slice_from_last [of 5 xs] by simp
  then have eq: "add_suspicion e now uid rsn pts b =
     (let data = added now rsn pts (case suspicious_users b uid of None \<Rightarrow> fresh | Some d \<Rightarrow> d);
          b1 = b\<lparr>suspicious_users := (suspicious_users b)(uid \<mapsto> data)\<rparr>;
          alert = \<lparr>title = HighSuspicion,
                 embed_fields =
                   (if get_user e uid
                    then [UserField uid, PointsField (total_points data),
                          ReasonsField (map reason (drop (length (reasons data) - 5) (reasons data)))]
                    else [])\<rparr>
      in if total_points data \<ge> threshold (config b) then send_security_alert e alert b1 else b1)"
    by (simp add: add_suspicion_def handle_high_suspicion_def Let_def added_def fresh_def
          split: option.splits)
  show ?thesis
    unfolding eq by (auto simp: Let_def delivered_send_security_alert)
qed

text \<open>
  The theorem at two calls in a row for one user, both at or over the threshold, and at a
  call that stays below it.
\<close>

theorem high_suspicion_alert_on_every_call_witness:
  "delivered (add_suspicion healthy_env 0 7 ''invite_link'' 3 (initial_bot channel_config))
     = [\<lparr>title = HighSuspicion,
         embed_fields = [UserField 7, PointsField 3, ReasonsField [''invite_link'']]\<rparr>]
 \<and> delivered
      (add_suspicion healthy_env 1000000 7 ''suspicious_content'' 1
         (add_suspicion healthy_env 0 7 ''invite_link'' 3 (initial_bot channel_config)))
     = [\<lparr>title = HighSuspicion,
         embed_fields = [UserField 7, PointsField 3, ReasonsField [''invite_link'']]\<rparr>,
        \<lparr>title = HighSuspicion,
         embed_fields =
           [UserField 7, PointsField 4, ReasonsField [''invite_link'', ''suspicious_content'']]\<rparr>]
 \<and> delivered (add_suspicion healthy_env 0 7 ''spam'' 2 (initial_bot channel_config)) = []"
proof -
  let ?b0 = "initial_bot channel_config"
  let ?b1 = "add_suspicion healthy_env 0 7 ''invite_link'' 3 ?b0"
  have u1: "suspicious_users ?b1 7 = Some (added 0 ''invite_link'' 3 fresh)"
    and c1: "config ?b1 = channel_config"
    by (simp_all add: users_add_suspicion initial_bot_def add_suspicion_def
          handle_high_suspicion_def Let_def added_def fresh_def)
  have th: "threshold channel_config = 3"
    and ch: "log_channel_id channel_config = Some 100"
    by (simp_all add: threshold_def channel_config_def default_config_def)
  have env: "get_user healthy_env 7" "get_channel healthy_env 100" "\<not> send_raises healthy_env"
    by (simp_all add: healthy_env_def)
  note sent = high_suspicion_alert_on_every_call
    [unfolded Let_def, THEN conjunct2, THEN conjunct1, rule_format]
  note quiet = high_suspicion_alert_on_every_call
    [unfolded Let_def, THEN conjunct2, THEN conjunct2, rule_format]
  have 1: "delivered ?b1 = [\<lparr>title = HighSuspicion,
         embed_fields = [UserField 7, PointsField 3, ReasonsField [''invite_link'']]\<rparr>]"
    using sent [where b = ?b0 and uid = 7 and e = healthy_env and now = 0
        and rsn = "''invite_link''" and pts = 3 and cid = 100]
    by (simp add: initial_bot_def th ch added_def fresh_def env)
  have 2: "delivered (add_suspicion healthy_env 1000000 7 ''suspicious_content'' 1 ?b1)
     = delivered ?b1 @ [\<lparr>title = HighSuspicion,
         embed_fields =
           [UserField 7, PointsField 4, ReasonsField [''invite_link'', ''suspicious_content'']]\<rparr>]"
    using sent [where b = ?b1 and uid = 7 and e = healthy_env and now = 1000000
        and rsn = "''suspicious_content''" and pts = 1 and cid = 100]
    by (simp add: u1 c1 th ch added_def fresh_def env)
  have 3: "delivered (add_suspicion healthy_env 0 7 ''spam'' 2 ?b0) = []"
    using quiet [where b = ?b0 and uid = 7 and e = healthy_env and now = 0
        and rsn = "''spam''" and pts = 2]
    by (simp add: initial_bot_def th ch added_def fresh_def)
  show ?thesis
    using 1 2 3 by simp
qed

text \<open>
  Claim C4 as stated fails: with a log channel configured and the user missing from the
  cache, the call that takes the total to 3, the threshold, delivers an embed that names
  neither the total nor a reason.
\<close>

theorem high_suspicion_alert_counterexample:
  "threshold channel_config = 3
 \<and> map_option total_points
      (suspicious_users
         (add_suspicion uncached_env 0 7 ''invite_link'' 3 (initial_bot channel_config)) 7)
     = Some 3
 \<and> delivered (add_suspicion uncached_env 0 7 ''invite_link'' 3 (initial_bot channel_config))
     = [\<lparr>title = HighSuspicion, embed_fields = []\<rparr>]"
  by (simp add: add_suspicion_def handle_high_suspicion_def send_security_alert_def Let_def
        threshold_def channel_config_def default_config_def initial_bot_def uncached_env_def
        healthy_env_def)

text \<open>
  Claim C9. \<open>clear_suspicion\<close> for a user with no record changes nothing and reports
  that there was none; for a user with a record it removes the record and reports the
  clearing; afterwards the user has no record, a second clear reports that there is none,
  and the records of the other users are untouched.
\<close>

theorem clear_suspicion_total_idempotent:
  "(suspicious_users b uid = None \<longrightarrow> clear_suspicion uid b = (NoSuspicions, b))
 \<and> (suspicious_users b uid \<noteq> None \<longrightarrow>
      clear_suspicion uid b = (Cleared, b\<lparr>suspicious_users := (suspicious_users b)(uid := None)\<rparr>))
 \<and> suspicious_users (snd (clear_suspicion uid b)) uid = None
 \<and> clear_suspicion uid (snd (clear_suspicion uid b)) = (NoSuspicions, snd (clear_suspicion uid b))
 \<and> (\<forall>v. v \<noteq> uid \<longrightarrow> suspicious_users (snd (clear_suspicion uid b)) v = suspicious_users b v)"
  by (auto simp: clear_suspicion_def dom_def)

text \<open>
  The theorem at the initial bot and at a bot in which user 7 was warned.
\<close>

theorem clear_suspicion_witness:
  "clear_suspicion 7 (initial_bot default_config) = (NoSuspicions, initial_bot default_config)
 \<and> clear_suspicion 7 (with_record 7 (warned []) (initial_bot default_config))
      = (Cleared, initial_bot default_config)
 \<and> suspicious_users
      (snd (clear_suspicion 7 (with_record 7 (warned []) (initial_bot default_config)))) 7 = None"
  using clear_suspicion_total_idempotent [of "initial_bot default_config" 7]
    clear_suspicion_total_idempotent [of "with_record 7 (warned []) (initial_bot default_config)" 7]
  by (simp add: initial_bot_def with_record_def)

lemma no_record_process_message:
  assumes "suspicious_users b uid = None" and "\<not> adds_points uid (ProcessMessage m)"
  shows "suspicious_users (snd (process_message e now m b)) uid = None"
proof (cases "author_id m = uid")
  case True
  with assms(2) have quiet:
    "\<not> is_suspicious_content (lower (content m))" "\<not> contains_invite (lower (content m))"
    by (auto simp: adds_points_def)
  have "is_spam now m b = (False, b)"
    using assms(1) True by (simp add: is_spam_def)
  then have "process_message e now m b = log_message_event e m b"
    using quiet by (simp add: process_message_def and_then_def)
  then show ?thesis
    using assms(1) by simp
next
  case False
  let ?P = "\<lambda>b. suspicious_users b uid = None"
  define b1 where "b1 =
    (if is_suspicious_content (lower (content m))
     then add_suspicion e now (author_id m) ''suspicious_content'' 1 (handle_suspicious_message e m b)
     else b)"
  have 1: "?P b1"
    unfolding b1_def using assms(1) False by (simp add: users_add_suspicion)
  have 2: "?P (snd (is_spam now m b1))"
    using 1 False by (simp add: users_is_spam)
  have add: "?P (add_suspicion e now (author_id m) rsn pts b')" if "?P b'" for b' rsn pts
    using that False by (simp add: users_add_suspicion)
  have spam: "?P (snd (and_then (handle_spam e m b')
                 (\<lambda>b'. (None, add_suspicion e now (author_id m) ''spam'' 2 b'))))"
    if "?P b'" for b'
  proof (rule and_then_preserves)
    show "?P (snd (handle_spam e m b'))" using that by simp
  qed (simp add: add)
  have invite: "?P (snd (and_then (handle_invite e m b')
                 (\<lambda>b'. (None, add_suspicion e now (author_id m) ''invite_link'' 3 b'))))"
    if "?P b'" for b'
  proof (rule and_then_preserves)
    show "?P (snd (handle_invite e m b'))" using that by simp
  qed (simp add: add)
  have step2: "?P (snd (if fst (is_spam now m b1)
            then and_then (handle_spam e m (snd (is_spam now m b1)))
                   (\<lambda>b'. (None, add_suspicion e now (author_id m) ''spam'' 2 b'))
            else (None, snd (is_spam now m b1))))"
    using 2 spam by simp
  have step3: "?P (snd (if contains_invite (lower (content m))
               then and_then (handle_invite e m b')
                      (\<lambda>b'. (None, add_suspicion e now (author_id m) ''invite_link'' 3 b'))
               else (None, b')))" if "?P b'" for b'
    using that invite by simp
  have step4: "?P (snd (log_message_event e m b'))" if "?P b'" for b'
    using that by simp
  show ?thesis
    unfolding process_message_def Let_def split_beta b1_def [symmetric]
    by (rule and_then_preserves [where P = ?P], rule step2,
        rule and_then_preserves [where P = ?P], erule step3, erule step4)
qed

lemma no_record_step:
  assumes "suspicious_users b uid = None" and "\<not> adds_points uid c"
  shows "suspicious_users (step (e, now, c) b) uid = None"
proof (cases c)
  case (AddSuspicion u rsn pts)
  then show ?thesis using assms by (simp add: adds_points_def users_add_suspicion)
next
  case (IsSpam m)
  then show ?thesis using assms by (auto simp: users_is_spam)
next
  case (ClearSuspicion u)
  then show ?thesis using assms by (simp add: clear_suspicion_def)
next
  case (ProcessMessage m)
  then show ?thesis using assms by (simp add: no_record_process_message)
qed

lemma no_record_run:
  assumes "suspicious_users b uid = None" and "\<forall>(e, now, c) \<in> set cs. \<not> adds_points uid c"
  shows "suspicious_users (run cs b) uid = None"
  using assms(2)
proof (induction cs rule: rev_induct)
  case Nil
  then show ?case using assms(1) by (simp add: run_def)
next
  case (snoc x xs)
  obtain e now c where x: "x = (e, now, c)" by (cases x)
  from snoc have "suspicious_users (run xs b) uid = None" and "\<not> adds_points uid c"
    by (auto simp: x)
  then show ?case
    by (simp add: run_snoc x no_record_step)
qed

text \<open>
  Claim C10. The window is a field of the ledger record: after \<open>clear_suspicion\<close> the
  user has no record, and the next spam check returns \<open>False\<close> and stores nothing. The
  same holds in every state reached from the initial bot by calls none of which added
  points for the user.
\<close>

theorem clear_suspicion_erases_window:
  "suspicious_users (snd (clear_suspicion (author_id m) b)) (author_id m) = None
 \<and> is_spam now m (snd (clear_suspicion (author_id m) b))
      = (False, snd (clear_suspicion (author_id m) b))
 \<and> ((\<forall>(e, t, c) \<in> set cs. \<not> adds_points (author_id m) c) \<longrightarrow>
      suspicious_users (run cs (initial_bot cfg)) (author_id m) = None \<and>
      is_spam now m (run cs (initial_bot cfg)) = (False, run cs (initial_bot cfg)))"
proof -
  have 1: "suspicious_users (snd (clear_suspicion (author_id m) b)) (author_id m) = None"
    by (simp add: clear_suspicion_def dom_def)
  have 2: "is_spam now m b' = (False, b')" if "suspicious_users b' (author_id m) = None" for b'
    using that by (simp add: is_spam_def)
  have 3: "suspicious_users (run cs (initial_bot cfg)) (author_id m) = None"
    if "\<forall>(e, t, c) \<in> set cs. \<not> adds_points (author_id m) c"
    by (rule no_record_run [OF _ that]) (simp add: initial_bot_def)
  show ?thesis
    using 1 2 3 by blast
qed

text \<open>
  The theorem at a user whose window held five readings of the last 5 seconds (the check
  would have returned \<open>True\<close>), and at a run that adds points for another user only.
\<close>

theorem clear_suspicion_erases_window_witness:
  "is_spam 6000000 (message_of 7 ''hi'')
     (snd (clear_suspicion 7
        (with_record 7 (warned [1000000, 2000000, 3000000, 4000000, 5000000])
           (initial_bot default_config))))
     = (False, initial_bot default_config)
 \<and> suspicious_users
      (run [(healthy_env, 0, IsSpam (message_of 7 ''hi'')),
            (healthy_env, 1000000, AddSuspicion 8 ''spam'' 2),
            (healthy_env, 2000000, ProcessMessage (message_of 7 ''hi''))]
         (initial_bot default_config)) 7 = None"
  using clear_suspicion_erases_window
    [of "message_of 7 ''hi''"
        "with_record 7 (warned [1000000, 2000000, 3000000, 4000000, 5000000])
           (initial_bot default_config)"
        6000000
        "[(healthy_env, 0, IsSpam (message_of 7 ''hi'')),
          (healthy_env, 1000000, AddSuspicion 8 ''spam'' 2),
          (healthy_env, 2000000, ProcessMessage (message_of 7 ''hi''))]"
        default_config]
  by (simp add: message_of_def adds_points_def clear_suspicion_def with_record_def
        initial_bot_def is_suspicious_content_def contains_invite_def suspicious_words_def
        lower_def lower_char_def sublist_code)

section \<open>The event log\<close>

lemma log_security_event_returns:
  "\<not> db_raises e \<Longrightarrow>
   log_security_event e ev b =
     (None, b\<lparr>security_events :=
                drop (length (security_events b) + 1 - 1000) (security_events b @ [ev]),
              db := (db b)\<lparr>events_table := events_table (db b) @ [ev]\<rparr>\<rparr>)"
  by (simp add: log_security_event_def Let_def slice_from_last [of 1000, simplified])

lemma log_security_event_raises:
  "db_raises e \<Longrightarrow>
   log_security_event e ev b = (Some DatabaseError, b\<lparr>security_events := security_events b @ [ev]\<rparr>)"
  by (simp add: log_security_event_def)

lemma events_record_all_snoc:
  "record_all e (evs @ [ev]) b = snd (log_security_event e ev (record_all e evs b))"
  by (simp add: record_all_def)

lemma drop_drop_snoc:
  "drop (length (drop (length xs - n) xs) + 1 - n) (drop (length xs - n) xs @ [x])
     = drop (length xs + 1 - n) (xs @ [x])"
  by (cases "length xs \<le> n") (auto simp: Suc_diff_le)

lemma events_record_all:
  assumes "\<not> db_raises e" and "evs \<noteq> [] \<or> length (security_events b) \<le> 1000"
  shows "security_events (record_all e evs b) =
    drop (length (security_events b @ evs) - 1000) (security_events b @ evs)"
  using assms(2)
proof (induction evs rule: rev_induct)
  case Nil
  then show ?case by (simp add: record_all_def)
next
  case (snoc ev evs)
  show ?case
  proof (cases "evs = []")
    case True
    then show ?thesis
      using assms(1) by (simp add: record_all_def log_security_event_returns)
  next
    case False
    then have IH: "security_events (record_all e evs b) =
        drop (length (security_events b @ evs) - 1000) (security_events b @ evs)"
      using snoc.IH by simp
    show ?thesis
      unfolding events_record_all_snoc
      using assms(1) drop_drop_snoc [of "security_events b @ evs" 1000 ev]
      by (simp add: log_security_event_returns IH)
  qed
qed

lemma events_recorded:
  "length evs \<le> 1000 \<Longrightarrow>
   security_events (record_all healthy_env evs (initial_bot default_config)) = evs"
  using events_record_all [of healthy_env evs "initial_bot default_config"]
  by (simp add: healthy_env_def initial_bot_def)

text \<open>
  Property X1, what holds of the log when the sqlite insert does not raise. After every
  \<open>log_security_event\<close> that returns, the log holds at most 1000 events: the last 1000 of
  the old log followed by the new event. The call returns whenever the insert does not
  raise. After 1005 events recorded from the initial bot the log is the last 1000 of them
  in the order of insertion; and a log of at most 1000 events stays one, always a suffix
  of all that was inserted.
\<close>

theorem event_log_keeps_last_1000:
  "(log_security_event e ev b = (None, b') \<longrightarrow>
      length (security_events b') \<le> 1000 \<and>
      security_events b' = drop (length (security_events b @ [ev]) - 1000) (security_events b @ [ev]))
 \<and> (\<not> db_raises e \<longrightarrow> fst (log_security_event e ev b) = None)
 \<and> (\<not> db_raises e \<and> length evs = 1005 \<longrightarrow>
      security_events (record_all e evs (initial_bot c)) = drop 5 evs \<and>
      length (security_events (record_all e evs (initial_bot c))) = 1000)
 \<and> (\<not> db_raises e \<and> length (security_events b) \<le> 1000 \<longrightarrow>
      length (security_events (record_all e evs b)) \<le> 1000 \<and>
      suffix (security_events (record_all e evs b)) (security_events b @ evs))"
proof (intro conjI impI)
  assume r: "log_security_event e ev b = (None, b')"
  then have ok: "\<not> db_raises e"
    by (auto simp: log_security_event_raises)
  from r show "length (security_events b') \<le> 1000"
    by (auto simp: log_security_event_returns [OF ok])
  from r show "security_events b' =
      drop (length (security_events b @ [ev]) - 1000) (security_events b @ [ev])"
    by (auto simp: log_security_event_returns [OF ok])
next
  assume "\<not> db_raises e"
  then show "fst (log_security_event e ev b) = None"
    by (simp add: log_security_event_returns)
next
  assume a: "\<not> db_raises e \<and> length evs = 1005"
  then have "evs \<noteq> []" by auto
  with a have eq: "security_events (record_all e evs (initial_bot c)) = drop 5 evs"
    using events_record_all [of e evs "initial_bot c"] by (simp add: initial_bot_def)
  show "security_events (record_all e evs (initial_bot c)) = drop 5 evs"
    by (rule eq)
  show "length (security_events (record_all e evs (initial_bot c))) = 1000"
    using a by (simp add: eq)
next
  assume a: "\<not> db_raises e \<and> length (security_events b) \<le> 1000"
  then have eq: "security_events (record_all e evs b) =
      drop (length (security_events b @ evs) - 1000) (security_events b @ evs)"
    using events_record_all [of e evs b] by simp
  show "length (security_events (record_all e evs b)) \<le> 1000"
    unfolding eq by simp
  show "suffix (security_events (record_all e evs b)) (security_events b @ evs)"
    unfolding eq by (rule suffix_drop)
qed

text \<open>
  The theorem at 1005 join events, and at a single leave event.
\<close>

theorem event_log_keeps_last_1000_witness:
  "security_events
     (record_all healthy_env
        (map (\<lambda>i. member_join_event (int i) (int i) ''member'' ''0001'') [0..<1005])
        (initial_bot default_config))
     = map (\<lambda>i. member_join_event (int i) (int i) ''member'' ''0001'') [5..<1005]
 \<and> security_events
      (snd (log_security_event healthy_env (member_leave_event 0 7 ''member'' ''0001'')
              (initial_bot default_config)))
     = [member_leave_event 0 7 ''member'' ''0001'']
 \<and> suffix
      (security_events
         (record_all healthy_env [member_leave_event 0 7 ''member'' ''0001'']
            (initial_bot default_config)))
      [member_leave_event 0 7 ''member'' ''0001'']"
proof -
  let ?evs = "map (\<lambda>i. member_join_event (int i) (int i) ''member'' ''0001'') [0..<1005]"
  let ?ev = "member_leave_event 0 7 ''member'' ''0001''"
  let ?r = "log_security_event healthy_env ?ev (initial_bot default_config)"
  have ok: "\<not> db_raises healthy_env"
    by (simp add: healthy_env_def)
  note T = event_log_keeps_last_1000
    [where e = healthy_env and ev = ?ev and b = "initial_bot default_config" and b' = "snd ?r"
       and evs = ?evs and c = default_config]
  note U = event_log_keeps_last_1000
    [where e = healthy_env and ev = ?ev and b = "initial_bot default_config" and b' = "snd ?r"
       and evs = "[?ev]" and c = default_config]
  have "fst ?r = None"
    using T ok by blast
  then have "?r = (None, snd ?r)"
    by (simp add: prod_eq_iff)
  with T have 1: "security_events (snd ?r) = [?ev]"
    by (simp add: initial_bot_def)
  have 2: "security_events (record_all healthy_env ?evs (initial_bot default_config)) = drop 5 ?evs"
    using T ok by simp
  have 3: "suffix (security_events (record_all healthy_env [?ev] (initial_bot default_config))) [?ev]"
    using U ok by (simp add: initial_bot_def)
  show ?thesis
    using 1 2 3 by (simp add: drop_map)
qed

text \<open>
  Claim C5 fails on the code. \<open>log_security_event\<close> appends the event before the sqlite
  insert and cuts the log to the last 1000 after it. At a log of 1000 events, recorded
  from the initial bot, a call whose insert raises leaves \<open>log_security_event\<close> with the
  exception, and the log then holds 1001 events.
\<close>

theorem event_log_holds_1001_when_insert_raises:
  "length (security_events
     (record_all healthy_env
        (map (\<lambda>i. member_join_event (int i) (int i) ''member'' ''0001'') [0..<1000])
        (initial_bot default_config))) = 1000
 \<and> fst (log_security_event (healthy_env\<lparr>db_raises := True\<rparr>)
          (member_leave_event 1000000000 7 ''member'' ''0001'')
          (record_all healthy_env
             (map (\<lambda>i. member_join_event (int i) (int i) ''member'' ''0001'') [0..<1000])
             (initial_bot default_config)))
     = Some DatabaseError
 \<and> length (security_events
      (snd (log_security_event (healthy_env\<lparr>db_raises := True\<rparr>)
              (member_leave_event 1000000000 7 ''member'' ''0001'')
              (record_all healthy_env
                 (map (\<lambda>i. member_join_event (int i) (int i) ''member'' ''0001'') [0..<1000])
                 (initial_bot default_config))))) = 1001"
proof -
  let ?evs = "map (\<lambda>i. member_join_event (int i) (int i) ''member'' ''0001'') [0..<1000]"
  let ?b = "record_all healthy_env ?evs (initial_bot default_config)"
  have evs: "security_events ?b = ?evs"
    by (rule events_recorded) simp
  have raises: "db_raises (healthy_env\<lparr>db_raises := True\<rparr>)"
    by simp
  show ?thesis
    unfolding log_security_event_raises [OF raises] by (simp add: evs)
qed

lemma show_logs_eq:
  assumes "1 \<le> limit"
  shows "show_logs etype limit b =
    (let matching = (if etype = ''all'' then security_events b
                     else filter (\<lambda>ev. event_type ev = upper etype) (security_events b))
     in if matching = [] then NoLogsFound
        else LogsEmbed (drop (length matching - nat (min limit 25)) matching))"
proof -
  define k where "k = nat (min limit 25)"
  have k: "0 < k" "(if 25 < limit then 25 else limit) = int k"
    using assms by (auto simp: k_def)
  show ?thesis
    unfolding show_logs_def Let_def k(2) slice_from_last [OF k(1)] k_def [symmetric]
    by (cases "etype = ''all''") simp_all
qed

lemma upper_member_join: "upper ''member_join'' = ''MEMBER_JOIN''"
  by (simp add: upper_def upper_char_def)

lemma upper_member_leave: "upper ''member_leave'' = ''MEMBER_LEAVE''"
  by (simp add: upper_def upper_char_def)

text \<open>
  Claim C6, as amended. For a limit of at least 1, \<open>show_logs\<close> shows the last
  \<open>min limit 25\<close> of the matching events, in the order of insertion (the most recent
  last), hence at most 25 and at most \<open>limit\<close>; with a filter other than \<open>all\<close> the
  events shown are those whose type is the filter in upper case. With no matching event
  it answers that no logs were found.
\<close>

theorem show_logs_latest_matching_oldest_first:
  "1 \<le> limit \<longrightarrow>
     (let matching = (if etype = ''all'' then security_events b
                      else filter (\<lambda>ev. event_type ev = upper etype) (security_events b));
          shown = drop (length matching - nat (min limit 25)) matching
      in show_logs etype limit b = (if matching = [] then NoLogsFound else LogsEmbed shown)
       \<and> length shown \<le> 25 \<and> int (length shown) \<le> limit
       \<and> suffix shown matching
       \<and> (etype \<noteq> ''all'' \<longrightarrow> (\<forall>ev \<in> set shown. event_type ev = upper etype)))"
proof
  assume l: "1 \<le> limit"
  define matching where "matching =
    (if etype = ''all'' then security_events b
     else filter (\<lambda>ev. event_type ev = upper etype) (security_events b))"
  define shown where "shown = drop (length matching - nat (min limit 25)) matching"
  have 1: "show_logs etype limit b = (if matching = [] then NoLogsFound else LogsEmbed shown)"
    using show_logs_eq [OF l, of etype b] by (simp add: Let_def matching_def shown_def)
  have 2: "length shown \<le> 25" "int (length shown) \<le> limit"
    using l by (auto simp: shown_def)
  have 3: "suffix shown matching"
    unfolding shown_def by (rule suffix_drop)
  have "event_type ev = upper etype" if "etype \<noteq> ''all''" "ev \<in> set shown" for ev
  proof -
    from that(2) have "ev \<in> set matching"
      unfolding shown_def by (rule in_set_dropD)
    with that(1) show ?thesis
      by (simp add: matching_def)
  qed
  then have 4: "etype \<noteq> ''all'' \<longrightarrow> (\<forall>ev \<in> set shown. event_type ev = upper etype)"
    by blast
  show "let matching = (if etype = ''all'' then security_events b
                      else filter (\<lambda>ev. event_type ev = upper etype) (security_events b));
          shown = drop (length matching - nat (min limit 25)) matching
      in show_logs etype limit b = (if matching = [] then NoLogsFound else LogsEmbed shown)
       \<and> length shown \<le> 25 \<and> int (length shown) \<le> limit
       \<and> suffix shown matching
       \<and> (etype \<noteq> ''all'' \<longrightarrow> (\<forall>ev \<in> set shown. event_type ev = upper etype))"
    unfolding Let_def matching_def [symmetric] shown_def [symmetric]
    using 1 2 3 4 by blast
qed

text \<open>
  The theorem at a log of a join followed by a leave.
\<close>

theorem show_logs_latest_matching_oldest_first_witness:
  "show_logs ''member_leave'' 1
     (record_all healthy_env
        [member_join_event 0 7 ''alice'' ''0001'', member_leave_event 1000000 7 ''alice'' ''0001'']
        (initial_bot default_config))
     = LogsEmbed [member_leave_event 1000000 7 ''alice'' ''0001'']
 \<and> show_logs ''all'' 30
     (record_all healthy_env
        [member_join_event 0 7 ''alice'' ''0001'', member_leave_event 1000000 7 ''alice'' ''0001'']
        (initial_bot default_config))
     = LogsEmbed
         [member_join_event 0 7 ''alice'' ''0001'', member_leave_event 1000000 7 ''alice'' ''0001'']"
proof -
  let ?join = "member_join_event 0 7 ''alice'' ''0001''"
  let ?leave = "member_leave_event 1000000 7 ''alice'' ''0001''"
  let ?b = "record_all healthy_env [?join, ?leave] (initial_bot default_config)"
  have evs: "security_events ?b = [?join, ?leave]"
    by (simp add: events_recorded)
  have types: "event_type ?join = ''MEMBER_JOIN''" "event_type ?leave = ''MEMBER_LEAVE''"
    by (simp_all add: member_join_event_def member_leave_event_def)
  have m: "filter (\<lambda>ev. event_type ev = upper ''member_leave'') (security_events ?b) = [?leave]"
    by (simp add: evs upper_member_leave types)
  note T = show_logs_latest_matching_oldest_first [unfolded Let_def, rule_format, THEN conjunct1]
  have 1: "show_logs ''member_leave'' 1 ?b = LogsEmbed [?leave]"
    using T [of 1 "''member_leave''" ?b] by (simp add: m)
  have 2: "show_logs ''all'' 30 ?b = LogsEmbed [?join, ?leave]"
    using T [of 30 "''all''" ?b] by (simp add: evs)
  show ?thesis
    using 1 2 by simp
qed

text \<open>
  Claim C6 as stated fails: the join recorded first is shown first, before the more
  recent leave; the filter \<open>member_join\<close> shows an event of type \<open>MEMBER_JOIN\<close>; and
  with limit 0 all 26 events of a log of 26 are put into the embed.
\<close>

theorem show_logs_counterexample:
  "show_logs ''all'' 10
     (record_all healthy_env
        [member_join_event 0 7 ''alice'' ''0001'', member_leave_event 1000000 7 ''alice'' ''0001'']
        (initial_bot default_config))
     = LogsEmbed
         [member_join_event 0 7 ''alice'' ''0001'', member_leave_event 1000000 7 ''alice'' ''0001'']
 \<and> show_logs ''member_join'' 10
     (record_all healthy_env
        [member_join_event 0 7 ''alice'' ''0001'', member_leave_event 1000000 7 ''alice'' ''0001'']
        (initial_bot default_config))
     = LogsEmbed [member_join_event 0 7 ''alice'' ''0001'']
 \<and> event_type (member_join_event 0 7 ''alice'' ''0001'') \<noteq> ''member_join''
 \<and> show_logs ''all'' 0
     (record_all healthy_env (replicate 26 (member_join_event 0 7 ''alice'' ''0001''))
        (initial_bot default_config))
     = LogsEmbed (replicate 26 (member_join_event 0 7 ''alice'' ''0001''))
 \<and> length (replicate 26 (member_join_event 0 7 ''alice'' ''0001'')) = 26"
proof -
  let ?join = "member_join_event 0 7 ''alice'' ''0001''"
  let ?leave = "member_leave_event 1000000 7 ''alice'' ''0001''"
  let ?b = "record_all healthy_env [?join, ?leave] (initial_bot default_config)"
  let ?many = "record_all healthy_env (replicate 26 ?join) (initial_bot default_config)"
  have evs: "security_events ?b = [?join, ?leave]"
    by (simp add: events_recorded)
  have many: "security_events ?many = replicate 26 ?join"
    by (rule events_recorded) simp
  have types: "event_type ?join = ''MEMBER_JOIN''" "event_type ?leave = ''MEMBER_LEAVE''"
    by (simp_all add: member_join_event_def member_leave_event_def)
  have m: "filter (\<lambda>ev. event_type ev = upper ''member_join'') (security_events ?b) = [?join]"
    by (simp add: evs upper_member_join types)
  have 1: "show_logs ''all'' 10 ?b = LogsEmbed [?join, ?leave]"
    by (simp add: show_logs_def evs slice_from_def)
  have 2: "show_logs ''member_join'' 10 ?b = LogsEmbed [?join]"
    by (simp add: show_logs_def m slice_from_def)
  have 3: "event_type ?join \<noteq> ''member_join''"
    by (simp add: types)
  have "replicate 26 ?join \<noteq> []"
    by (simp only: replicate_empty)
  then have 4: "show_logs ''all'' 0 ?many = LogsEmbed (replicate 26 ?join)"
    by (simp add: show_logs_def many slice_from_def)
  show ?thesis
    using 1 2 3 4 by simp
qed

section \<open>Failures of the outside\<close>

lemma hi_is_quiet:
  "lower ''hi'' = ''hi''" "\<not> is_suspicious_content ''hi''" "\<not> contains_invite ''hi''"
  by (simp_all add: lower_def lower_char_def is_suspicious_content_def contains_invite_def
        suspicious_words_def sublist_code)

lemma invite_text:
  "lower ''discord.gg/abc'' = ''discord.gg/abc''"
  "\<not> is_suspicious_content ''discord.gg/abc''"
  "contains_invite ''discord.gg/abc''"
  by (simp_all add: lower_def lower_char_def is_suspicious_content_def contains_invite_def
        suspicious_words_def sublist_code)

text \<open>
  Claim C7 fails on the code. \<open>process_message\<close> at a message of a user whose window
  holds five readings of the last 5 seconds, when \<open>author.timeout\<close> raises: the exception
  leaves \<open>process_message\<close>, and the record keeps its 2 points, while with a timeout that
  succeeds the spam points are added. Likewise a raise of \<open>message.delete\<close> skips the
  points of an invite link, and a raise of the sqlite insert leaves \<open>process_message\<close>.
\<close>

theorem process_message_failure_skips_points:
  "process_message (healthy_env\<lparr>timeout_raises := True\<rparr>) 6000000 (message_of 7 ''hi'')
     (with_record 7 (warned [1000000, 2000000, 3000000, 4000000, 5000000])
        (initial_bot default_config))
     = (Some DiscordError,
        with_record 7 (warned [1000000, 2000000, 3000000, 4000000, 5000000])
          (initial_bot default_config))
 \<and> suspicious_users
      (snd (process_message healthy_env 6000000 (message_of 7 ''hi'')
              (with_record 7 (warned [1000000, 2000000, 3000000, 4000000, 5000000])
                 (initial_bot default_config)))) 7
     = Some (added 6000000 ''spam'' 2 (warned [1000000, 2000000, 3000000, 4000000, 5000000]))
 \<and> process_message (healthy_env\<lparr>delete_raises := True\<rparr>) 0 (message_of 7 ''discord.gg/abc'')
       (initial_bot default_config)
     = (Some DiscordError, initial_bot default_config)
 \<and> fst (process_message (healthy_env\<lparr>db_raises := True\<rparr>) 0 (message_of 7 ''hi'')
          (initial_bot default_config))
     = Some DatabaseError"
proof -
  let ?m = "message_of 7 ''hi''"
  let ?b = "with_record 7 (warned [1000000, 2000000, 3000000, 4000000, 5000000])
              (initial_bot default_config)"
  have m: "content ?m = ''hi''" "author_id ?m = 7"
    "content (message_of 7 ''discord.gg/abc'') = ''discord.gg/abc''"
    "author_id (message_of 7 ''discord.gg/abc'') = 7"
    by (simp_all add: message_of_def)
  have spam: "is_spam 6000000 ?m ?b = (True, ?b)"
    by (simp add: is_spam_def td_seconds_def with_record_def message_of_def warned_def)
  have cfg: "log_channel_id (config ?b) = None" "auto_moderation_on (config ?b)"
    "log_channel_id (config (initial_bot default_config)) = None"
    "auto_moderation_on (config (initial_bot default_config))"
    by (simp_all add: with_record_def initial_bot_def default_config_def auto_moderation_on_def)
  have u0: "suspicious_users (initial_bot default_config) 7 = None"
    by (simp add: initial_bot_def)
  have 1: "process_message (healthy_env\<lparr>timeout_raises := True\<rparr>) 6000000 ?m ?b
      = (Some DiscordError, ?b)"
    by (simp add: process_message_def m hi_is_quiet spam and_then_def handle_spam_no_channel
          cfg Let_def)
  have "process_message healthy_env 6000000 ?m ?b
      = log_message_event healthy_env ?m
          (add_suspicion healthy_env 6000000 7 ''spam'' 2
             (?b\<lparr>moderation := moderation ?b @ [Timeout 7 5]\<rparr>))"
    by (simp add: process_message_def m hi_is_quiet spam and_then_def handle_spam_no_channel
          cfg Let_def healthy_env_def)
  then have 2: "suspicious_users (snd (process_message healthy_env 6000000 ?m ?b)) 7
      = Some (added 6000000 ''spam'' 2 (warned [1000000, 2000000, 3000000, 4000000, 5000000]))"
    by (simp add: users_add_suspicion with_record_def)
  have 3: "process_message (healthy_env\<lparr>delete_raises := True\<rparr>) 0
       (message_of 7 ''discord.gg/abc'') (initial_bot default_config)
      = (Some DiscordError, initial_bot default_config)"
    by (simp add: process_message_def m invite_text is_spam_unknown u0 and_then_def
          handle_invite_no_channel cfg Let_def)
  have 4: "fst (process_message (healthy_env\<lparr>db_raises := True\<rparr>) 0 ?m
          (initial_bot default_config)) = Some DatabaseError"
    by (simp add: process_message_def m hi_is_quiet is_spam_unknown u0 and_then_def
          log_message_event_def Let_def)
  show ?thesis
    using 1 2 3 4 by simp
qed

section \<open>The periodic scan\<close>

lemma format_1f_eq:
  assumes "of_int n - 1 / 2 < x * 10" and "x * 10 < of_int n + 1 / 2"
  shows "format_1f x = n"
proof -
  define f where "f = \<lfloor>x * 10\<rfloor>"
  have f: "of_int f \<le> x * 10" "x * 10 < of_int f + 1"
    unfolding f_def by linarith+
  have "real_of_int f < real_of_int n + 1" "real_of_int n - 1 < real_of_int f + 1"
    using assms f by linarith+
  then have "f < n + 1" "n - 1 < f + 1"
    by linarith+
  then consider "f = n" | "f = n - 1"
    by linarith
  then show ?thesis
  proof cases
    case 1
    then show ?thesis
      using assms f by (simp add: format_1f_def Let_def f_def [symmetric])
  next
    case 2
    then have "x * 10 - of_int f > 1 / 2"
      using assms by simp
    then show ?thesis
      using 2 by (simp add: format_1f_def Let_def f_def [symmetric])
  qed
qed

lemma format_1f_near: "\<bar>real_of_int (format_1f x) / 10 - x\<bar> \<le> 1 / 20"
proof -
  define f where "f = \<lfloor>x * 10\<rfloor>"
  have f: "of_int f \<le> x * 10" "x * 10 < of_int f + 1"
    unfolding f_def by linarith+
  have "(format_1f x = f \<and> x * 10 - of_int f \<le> 1 / 2) \<or>
        (format_1f x = f + 1 \<and> x * 10 - of_int f \<ge> 1 / 2)"
    by (auto simp: format_1f_def Let_def f_def [symmetric])
  then show ?thesis
  proof
    assume a: "format_1f x = f \<and> x * 10 - of_int f \<le> 1 / 2"
    then have "real_of_int (format_1f x) = of_int f"
      by simp
    with a f show ?thesis
      by linarith
  next
    assume a: "format_1f x = f + 1 \<and> x * 10 - of_int f \<ge> 1 / 2"
    then have "real_of_int (format_1f x) = of_int f + 1"
      by simp
    with a f show ?thesis
      by linarith
  qed
qed

lemma float_rounding_id: "float_rounding (\<lambda>x. x)"
  by (simp add: float_rounding_def mono_def)

lemma percentage_below_10:
  fixes n t :: int
  assumes fl: "float_rounding fl"
    and t: "0 < t" "t < 2 ^ 50"
    and n: "0 \<le> n" "n < 2 ^ 50"
    and lt: "10 * n < t"
  shows "online_percentage fl n t < 10"
proof (cases "n = 0")
  case True
  then show ?thesis
    using fl by (simp add: online_percentage_def float_rounding_def)
next
  case False
  define x where "x = real_of_int n / real_of_int t"
  have err: "\<bar>fl z - z\<bar> \<le> z / 2 ^ 53" if "1 / 2 ^ 60 \<le> z" "z \<le> 2 ^ 60" for z
    using fl that by (simp add: float_rounding_def)
  have "1 \<le> n" "1 \<le> t"
    using False n t by linarith+
  then have n1: "1 \<le> real_of_int n" and t1: "1 \<le> real_of_int t"
    by simp_all
  have tb: "real_of_int t < 2 ^ 50"
    using t by simp
  have tpos: "0 < real_of_int t"
    using t1 by linarith
  have inv: "1 / 2 ^ 50 \<le> 1 / real_of_int t"
    using t1 tb by (intro divide_left_mono) simp_all
  have xl: "1 / 2 ^ 50 \<le> x"
  proof -
    have "1 / real_of_int t \<le> x"
      unfolding x_def using n1 t1 by (intro divide_right_mono) simp_all
    with inv show ?thesis by linarith
  qed
  have xu: "x \<le> 1 / 10 - 1 / 10 / 2 ^ 50"
  proof -
    have "10 * n + 1 \<le> t"
      using lt by linarith
    then have "real_of_int (10 * n + 1) \<le> real_of_int t"
      by (rule of_int_le_iff [THEN iffD2])
    then have le: "10 * real_of_int n + 1 \<le> real_of_int t"
      by simp
    have "x * real_of_int t = real_of_int n"
      unfolding x_def using tpos by simp
    then have "10 * x * real_of_int t \<le> real_of_int t - 1"
      using le by linarith
    then have "10 * x \<le> (real_of_int t - 1) / real_of_int t"
      using tpos by (simp add: pos_le_divide_eq)
    also have "\<dots> = 1 - 1 / real_of_int t"
      using tpos by (simp add: diff_divide_distrib)
    also have "\<dots> \<le> 1 - 1 / 2 ^ 50"
      using inv by linarith
    finally show ?thesis
      by simp
  qed
  define y where "y = fl x * 100"
  have "1 / 2 ^ 60 \<le> x" "x \<le> 2 ^ 60"
    using xl xu by simp_all
  then have "\<bar>fl x - x\<bar> \<le> x / 2 ^ 53"
    by (rule err)
  then have fx: "fl x \<le> x + x / 2 ^ 53" "x - x / 2 ^ 53 \<le> fl x"
    by linarith+
  have yl: "1 / 2 ^ 60 \<le> y"
    unfolding y_def using fx(2) xl by simp
  have yu: "y \<le> 10 - 1 / 2 ^ 48"
    unfolding y_def using fx(1) xu by simp
  then have "y \<le> 2 ^ 60"
    by simp
  with yl have "\<bar>fl y - y\<bar> \<le> y / 2 ^ 53"
    by (rule err)
  then have "fl y \<le> y + y / 2 ^ 53"
    by linarith
  with yu have "fl y < 10"
    by simp
  then show ?thesis
    by (simp add: online_percentage_def y_def x_def)
qed

lemma percentage_not_below_10:
  fixes n t :: int
  assumes fl: "float_rounding fl" and t: "0 < t" and ge: "t \<le> 10 * n"
  shows "10 \<le> online_percentage fl n t"
proof -
  define x where "x = real_of_int n / real_of_int t"
  have mono: "fl a \<le> fl b" if "a \<le> b" for a b
    using fl that by (simp add: float_rounding_def mono_def)
  have tpos: "0 < real_of_int t"
    using t by simp
  have "real_of_int t \<le> real_of_int (10 * n)"
    using ge by (rule of_int_le_iff [THEN iffD2])
  then have "real_of_int t \<le> 10 * real_of_int n"
    by simp
  then have "1 / 10 \<le> x"
    unfolding x_def using tpos by (simp add: pos_le_divide_eq)
  then have "fl (1 / 10) \<le> fl x"
    by (rule mono)
  moreover have "1 / 10 \<le> fl (1 / 10)"
    using fl by (simp add: float_rounding_def)
  ultimately have "10 \<le> fl x * 100"
    by linarith
  then have "fl 10 \<le> fl (fl x * 100)"
    by (rule mono)
  moreover have "fl 10 = 10"
    using fl by (simp add: float_rounding_def)
  ultimately show ?thesis
    by (simp add: online_percentage_def x_def)
qed

lemma percentage_below_10_iff:
  fixes n t :: int
  assumes "float_rounding fl" "0 < t" "t < 2 ^ 50" "0 \<le> n" "n < 2 ^ 50"
  shows "(online_percentage fl n t < 10) = (real_of_int n / real_of_int t < 1 / 10)"
proof -
  have "(real_of_int n / real_of_int t < 1 / 10) = (10 * real_of_int n < real_of_int t)"
    using assms(2) by (simp add: pos_divide_less_eq mult.commute)
  also have "\<dots> = (real_of_int (10 * n) < real_of_int t)"
    by simp
  also have "\<dots> = (10 * n < t)"
    by (rule of_int_less_iff)
  finally have frac: "(real_of_int n / real_of_int t < 1 / 10) = (10 * n < t)" .
  show ?thesis
  proof (cases "10 * n < t")
    case True
    then show ?thesis
      using percentage_below_10 [OF assms True] frac by simp
  next
    case False
    then have "t \<le> 10 * n"
      by simp
    then have "10 \<le> online_percentage fl n t"
      by (rule percentage_not_below_10 [OF assms(1,2)])
    then show ?thesis
      using False frac by simp
  qed
qed

lemma percentage_of_10_in_150:
  assumes fl: "float_rounding fl"
  shows "format_1f (online_percentage fl 10 150) = 67"
proof -
  have err: "\<bar>fl z - z\<bar> \<le> z / 2 ^ 53" if "1 / 2 ^ 60 \<le> z" "z \<le> 2 ^ 60" for z
    using fl that by (simp add: float_rounding_def)
  define x :: real where "x = 1 / 15"
  define y where "y = fl x * 100"
  have "\<bar>fl x - x\<bar> \<le> x / 2 ^ 53"
    by (rule err) (simp_all add: x_def)
  then have fx: "fl x \<le> x + x / 2 ^ 53" "x - x / 2 ^ 53 \<le> fl x"
    by linarith+
  have yb: "666 / 100 \<le> y" "y \<le> 667 / 100"
    unfolding y_def using fx by (simp_all add: x_def)
  then have "\<bar>fl y - y\<bar> \<le> y / 2 ^ 53"
    by (intro err) simp_all
  then have "fl y \<le> y + y / 2 ^ 53" "y - y / 2 ^ 53 \<le> fl y"
    by linarith+
  with yb have "665 / 100 < fl y" "fl y < 675 / 100"
    by simp_all
  moreover have "online_percentage fl 10 150 = fl y"
    by (simp add: online_percentage_def y_def x_def)
  ultimately have "of_int 67 - 1 / 2 < online_percentage fl 10 150 * 10"
    "online_percentage fl 10 150 * 10 < of_int 67 + 1 / 2"
    by simp_all
  then show ?thesis
    by (rule format_1f_eq)
qed

lemma guild_of_counts:
  "member_count (guild_of name n_total n_online) = int n_total"
  "guild_name (guild_of name n_total n_online) = name"
  "n_online \<le> n_total \<Longrightarrow> length (members (guild_of name n_total n_online)) = n_total"
  "length (filter (\<lambda>s. s \<noteq> Offline) (members (guild_of name n_total n_online))) = n_online"
  by (simp_all add: guild_of_def)

text \<open>
  Claim C8. For a rounding \<open>fl\<close> with the properties of \<open>float_rounding\<close> and a guild
  of fewer than 2^50 members, \<open>scan_guild_security\<close> hands the low-activity embed to
  \<open>send_security_alert\<close> exactly when the guild has more than 100 members and the online
  members are less than a tenth of them. The embed carries the online and total counts and
  the percentage in tenths, at most 0.05 from the computed one. 10 online of 150 give the
  embed with 6.7 percent; a guild of 50 gives none.
\<close>

theorem low_activity_alert_condition:
  "float_rounding fl \<and> member_count g < 2 ^ 50 \<and> int (length (members g)) < 2 ^ 50 \<longrightarrow>
     (let n_total = member_count g;
          n_online = int (length (filter (\<lambda>s. s \<noteq> Offline) (members g)));
          pct = online_percentage fl n_online n_total
      in scan_guild_security fl e g b =
           (if n_total > 100 \<and> real_of_int n_online / real_of_int n_total < 1 / 10
            then send_security_alert e
                   \<lparr>title = LowActivity,
                    embed_fields = [GuildField (guild_name g), OnlineField n_online n_total,
                                    PercentField (format_1f pct)]\<rparr> b
            else b)
       \<and> \<bar>real_of_int (format_1f pct) / 10 - pct\<bar> \<le> 1 / 20
       \<and> (n_total = 150 \<and> n_online = 10 \<longrightarrow>
            scan_guild_security fl e g b =
              send_security_alert e
                \<lparr>title = LowActivity,
                 embed_fields = [GuildField (guild_name g), OnlineField 10 150, PercentField 67]\<rparr> b)
       \<and> (n_total = 50 \<longrightarrow> scan_guild_security fl e g b = b))"
proof
  assume a: "float_rounding fl \<and> member_count g < 2 ^ 50 \<and> int (length (members g)) < 2 ^ 50"
  define n_total where "n_total = member_count g"
  define n_online where "n_online = int (length (filter (\<lambda>s. s \<noteq> Offline) (members g)))"
  define pct where "pct = online_percentage fl n_online n_total"
  have fl: "float_rounding fl" and tb: "n_total < 2 ^ 50"
    using a by (simp_all add: n_total_def)
  have "length (filter (\<lambda>s. s \<noteq> Offline) (members g)) \<le> length (members g)"
    by (rule length_filter_le)
  then have nb: "0 \<le> n_online" "n_online < 2 ^ 50"
    using a unfolding n_online_def by linarith+
  have scan: "scan_guild_security fl e g b =
      (if n_total > 0 \<and> pct < 10 \<and> n_total > 100
       then send_security_alert e
              \<lparr>title = LowActivity,
               embed_fields = [GuildField (guild_name g), OnlineField n_online n_total,
                               PercentField (format_1f pct)]\<rparr> b
       else b)"
    by (simp add: scan_guild_security_def Let_def n_total_def n_online_def pct_def)
  have iff: "(pct < 10) = (real_of_int n_online / real_of_int n_total < 1 / 10)" if "n_total > 0"
    unfolding pct_def using fl that tb nb by (rule percentage_below_10_iff)
  have 1: "scan_guild_security fl e g b =
      (if n_total > 100 \<and> real_of_int n_online / real_of_int n_total < 1 / 10
       then send_security_alert e
              \<lparr>title = LowActivity,
               embed_fields = [GuildField (guild_name g), OnlineField n_online n_total,
                               PercentField (format_1f pct)]\<rparr> b
       else b)"
  proof (cases "n_total > 100")
    case True
    then have "n_total > 0" by simp
    with True show ?thesis
      unfolding scan by (simp add: iff)
  next
    case False
    then show ?thesis
      unfolding scan by simp
  qed
  have 2: "\<bar>real_of_int (format_1f pct) / 10 - pct\<bar> \<le> 1 / 20"
    by (rule format_1f_near)
  have 3: "scan_guild_security fl e g b =
      send_security_alert e
        \<lparr>title = LowActivity,
         embed_fields = [GuildField (guild_name g), OnlineField 10 150, PercentField 67]\<rparr> b"
    if "n_total = 150 \<and> n_online = 10"
    unfolding 1 using that percentage_of_10_in_150 [OF fl] by (simp add: pct_def)
  have 4: "scan_guild_security fl e g b = b" if "n_total = 50"
    unfolding 1 using that by simp
  show "let n_total = member_count g;
          n_online = int (length (filter (\<lambda>s. s \<noteq> Offline) (members g)));
          pct = online_percentage fl n_online n_total
      in scan_guild_security fl e g b =
           (if n_total > 100 \<and> real_of_int n_online / real_of_int n_total < 1 / 10
            then send_security_alert e
                   \<lparr>title = LowActivity,
                    embed_fields = [GuildField (guild_name g), OnlineField n_online n_total,
                                    PercentField (format_1f pct)]\<rparr> b
            else b)
       \<and> \<bar>real_of_int (format_1f pct) / 10 - pct\<bar> \<le> 1 / 20
       \<and> (n_total = 150 \<and> n_online = 10 \<longrightarrow>
            scan_guild_security fl e g b =
              send_security_alert e
                \<lparr>title = LowActivity,
                 embed_fields = [GuildField (guild_name g), OnlineField 10 150, PercentField 67]\<rparr> b)
       \<and> (n_total = 50 \<longrightarrow> scan_guild_security fl e g b = b)"
    unfolding Let_def n_total_def [symmetric] n_online_def [symmetric] pct_def [symmetric]
    using 1 2 3 4 by blast
qed

text \<open>
  The theorem with exact arithmetic for \<open>fl\<close>, at 10 online of 150 and at 2 online of
  50, with a log channel configured.
\<close>

theorem low_activity_alert_condition_witness:
  "delivered
     (scan_guild_security (\<lambda>x. x) healthy_env (guild_of ''guild'' 150 10)
        (initial_bot channel_config))
     = [\<lparr>title = LowActivity,
         embed_fields = [GuildField ''guild'', OnlineField 10 150, PercentField 67]\<rparr>]
 \<and> scan_guild_security (\<lambda>x. x) healthy_env (guild_of ''guild'' 50 2)
       (initial_bot channel_config)
     = initial_bot channel_config"
proof -
  note T = low_activity_alert_condition [unfolded Let_def, rule_format]
  have big: "float_rounding (\<lambda>x. x) \<and> member_count (guild_of ''guild'' 150 10) < 2 ^ 50 \<and>
      int (length (members (guild_of ''guild'' 150 10))) < 2 ^ 50"
    by (simp add: float_rounding_id guild_of_counts)
  have small: "float_rounding (\<lambda>x. x) \<and> member_count (guild_of ''guild'' 50 2) < 2 ^ 50 \<and>
      int (length (members (guild_of ''guild'' 50 2))) < 2 ^ 50"
    by (simp add: float_rounding_id guild_of_counts)
  have "scan_guild_security (\<lambda>x. x) healthy_env (guild_of ''guild'' 150 10)
        (initial_bot channel_config)
      = send_security_alert healthy_env
          \<lparr>title = LowActivity,
           embed_fields = [GuildField ''guild'', OnlineField 10 150, PercentField 67]\<rparr>
          (initial_bot channel_config)"
    using T [OF big, THEN conjunct2, THEN conjunct2, THEN conjunct1, of healthy_env
        "initial_bot channel_config"]
    by (simp add: guild_of_counts)
  then have 1: "delivered
     (scan_guild_security (\<lambda>x. x) healthy_env (guild_of ''guild'' 150 10)
        (initial_bot channel_config))
     = [\<lparr>title = LowActivity,
         embed_fields = [GuildField ''guild'', OnlineField 10 150, PercentField 67]\<rparr>]"
    by (simp add: delivered_send_security_alert initial_bot_def channel_config_def
          healthy_env_def)
  have 2: "scan_guild_security (\<lambda>x. x) healthy_env (guild_of ''guild'' 50 2)
       (initial_bot channel_config) = initial_bot channel_config"
    using T [OF small, THEN conjunct2, THEN conjunct2, THEN conjunct2, of healthy_env
        "initial_bot channel_config"]
    by (simp add: guild_of_counts)
  show ?thesis
    using 1 2 by simp
qed

end
